theory Spec2Isabelle
  imports Main "HOL-Library.Word" "HOL-Library.Signed_Division"
begin

unbundle bit_operations_syntax

section \<open>Data model\<close>

text \<open>
  The driver is C for a 32-bit kernel. A C \<open>int\<close> is a \<open>32 word\<close>: \<open>+\<close>, \<open>-\<close> and \<open>*\<close> wrap
  around (the kernel is built with wrapping signed arithmetic), \<open>==\<close> is equality and
  \<open><\<close>, \<open>>\<close> on \<open>int\<close> are the signed orders \<open><s\<close>. \<open>uint8_t\<close> and \<open>uint16_t\<close> are
  \<open>8 word\<close> and \<open>16 word\<close> with the unsigned order. Return codes are written as
  mathematical integers.
\<close>

type_synonym u8 = "8 word"
type_synonym u16 = "16 word"
type_synonym s32 = "32 word"

definition EINVAL :: int where "EINVAL = 22"
definition EACCES :: int where "EACCES = 13"
definition ENOMEM :: int where "ENOMEM = 12"

text \<open>
  \<open>struct ihex_binrec\<close>: the fields hold the values that \<open>be32_to_cpu\<close> and \<open>be16_to_cpu\<close>
  deliver. \<open>data\<close> is the flexible array member: the code indexes it without a bound,
  so it is the memory that follows the header, of which the first \<open>len\<close> bytes are the
  record's payload.
\<close>

record ihex_binrec =
  addr :: "32 word"
  len :: u16
  data :: "nat \<Rightarrow> u8"

text \<open>
  A pointer to a record is the remainder of the record stream that starts at that record;
  \<open>NULL\<close> is \<open>[]\<close>. The stream holds the records in front of the end marker, the record
  of length zero, so every record of a stream has a non-zero length. The code takes the
  start of the image for its first record without a test: the theorems are about images
  with at least one record.
\<close>

type_synonym binrec_ptr = "ihex_binrec list"

text \<open>
  Modelled from the spec: \<open>ihex_next_binrec\<close> (of \<open>linux/ihex.h\<close>, not part of the
  driver's sources) steps to the record that follows, and gives \<open>NULL\<close> when that is the
  end-of-stream marker.
\<close>

fun ihex_next_binrec :: "binrec_ptr \<Rightarrow> binrec_ptr" where
  "ihex_next_binrec [] = []"
| "ihex_next_binrec (r # rest) = rest"

text \<open>
  The constants of \<open>issp_priv.h\<close>, which is not part of the sources, are parameters.
\<close>

record issp_priv =
  ISSP_FW_SECURITY_ADDR :: s32
  ISSP_FW_CHECKSUM_ADDR :: s32

record issp_platform_data =
  block_size :: s32
  blocks :: s32
  version_addr :: s32
  force_update :: bool
  pdata_si_id :: "u8 \<times> u8 \<times> u8 \<times> u8"

record issp_host =
  pdata :: issp_platform_data
  fw :: "ihex_binrec list"
  security_rec :: binrec_ptr
  checksum_fw :: u16
  version_fw :: u8
  cur_rec :: binrec_ptr
  cur_idx :: nat
  si_id :: "u8 \<times> u8 \<times> u8 \<times> u8"

section \<open>Firmware validation: \<open>issp_check_fw\<close>\<close>

text \<open>
  The body of the \<open>while (rec)\<close> loop, up to the test \<open>checks == 4\<close>: \<open>rec\<close> is the
  pointer \<open>r # rest\<close>. The counter \<open>checks\<close> is a natural number: it grows by at most
  four per record and cannot reach the range of \<open>int\<close>.
\<close>

definition issp_check_rec ::
  "issp_priv \<Rightarrow> s32 \<Rightarrow> ihex_binrec \<Rightarrow> binrec_ptr \<Rightarrow> issp_host \<Rightarrow> nat \<Rightarrow> issp_host \<times> nat" where
  "issp_check_rec K size_i r rest host checks =
    (let addr_i = addr r;
         len_i = (ucast (len r) :: s32);
         checks1 = (if addr_i + len_i = size_i then checks + 1 else checks);
         host2 = (if addr_i = ISSP_FW_SECURITY_ADDR K
                  then host\<lparr>security_rec := r # rest\<rparr> else host);
         checks2 = (if addr_i = ISSP_FW_SECURITY_ADDR K then checks1 + 1 else checks1);
         host3 = (if addr_i = ISSP_FW_CHECKSUM_ADDR K
                  then host2\<lparr>checksum_fw := push_bit 8 (ucast (data r 0)) OR ucast (data r 1)\<rparr>
                  else host2);
         checks3 = (if addr_i = ISSP_FW_CHECKSUM_ADDR K then checks2 + 1 else checks2);
         vhit = (addr_i <s version_addr (pdata host3)
                 \<and> version_addr (pdata host3) <s addr_i + len_i);
         host4 = (if vhit
                  then host3\<lparr>version_fw := data r (unat (version_addr (pdata host3) - addr_i))\<rparr>
                  else host3);
         checks4 = (if vhit then checks3 + 1 else checks3)
     in (host4, checks4))"

fun issp_check_fw_loop ::
  "issp_priv \<Rightarrow> s32 \<Rightarrow> binrec_ptr \<Rightarrow> issp_host \<Rightarrow> nat \<Rightarrow> issp_host \<times> nat" where
  "issp_check_fw_loop K size_i [] host checks = (host, checks)"
| "issp_check_fw_loop K size_i (r # rest) host checks =
    (case issp_check_rec K size_i r rest host checks of
       (host', checks') \<Rightarrow>
         if checks' = 4 then (host', checks')
         else issp_check_fw_loop K size_i (ihex_next_binrec (r # rest)) host' checks')"

definition issp_check_fw :: "issp_priv \<Rightarrow> issp_host \<Rightarrow> int \<times> issp_host" where
  "issp_check_fw K host =
    (let size_i = block_size (pdata host) * blocks (pdata host) in
     case issp_check_fw_loop K size_i (fw host) host 0 of
       (host', checks) \<Rightarrow> if checks < 4 then (- EINVAL, host') else (0, host'))"

text \<open>
  The host context as \<open>issp_probe\<close> creates it: \<open>devm_kzalloc\<close> clears every field, then
  \<open>pdata\<close> and the loaded image are stored.
\<close>

definition new_host :: "issp_platform_data \<Rightarrow> ihex_binrec list \<Rightarrow> issp_host" where
  "new_host pd img =
     \<lparr>pdata = pd, fw = img, security_rec = [], checksum_fw = 0, version_fw = 0,
      cur_rec = [], cur_idx = 0, si_id = (0, 0, 0, 0)\<rparr>"

section \<open>Sequential byte extraction\<close>

text \<open>
  \<open>issp_fw_get_byte\<close> dereferences \<open>cur_rec\<close>: on the \<open>NULL\<close> pointer it has no result
  (\<open>None\<close>). \<open>cur_idx\<close> stays below \<open>2 ^ 16\<close> and is a natural number.
\<close>

definition issp_fw_rewind :: "issp_host \<Rightarrow> issp_host" where
  "issp_fw_rewind host = host\<lparr>cur_rec := fw host, cur_idx := 0\<rparr>"

definition issp_fw_seek_security :: "issp_host \<Rightarrow> issp_host" where
  "issp_fw_seek_security host = host\<lparr>cur_rec := security_rec host, cur_idx := 0\<rparr>"

definition issp_fw_get_byte :: "issp_host \<Rightarrow> (u8 \<times> issp_host) option" where
  "issp_fw_get_byte host =
     (case cur_rec host of
        [] \<Rightarrow> None
      | r # rest \<Rightarrow>
          (let byte = data r (cur_idx host);
               host1 = host\<lparr>cur_idx := cur_idx host + 1\<rparr>;
               host2 = (if unat (len r) \<le> cur_idx host1
                        then host1\<lparr>cur_rec := ihex_next_binrec (r # rest), cur_idx := 0\<rparr>
                        else host1)
           in Some (byte, host2)))"

text \<open>The caller's loop: \<open>n\<close> successive calls of \<open>issp_fw_get_byte\<close>.\<close>

fun get_bytes :: "nat \<Rightarrow> issp_host \<Rightarrow> (u8 list \<times> issp_host) option" where
  "get_bytes 0 host = Some ([], host)"
| "get_bytes (Suc n) host =
     (case issp_fw_get_byte host of
        None \<Rightarrow> None
      | Some (b, host') \<Rightarrow>
          (case get_bytes n host' of
             None \<Rightarrow> None
           | Some (bs, host'') \<Rightarrow> Some (b # bs, host'')))"

section \<open>Update decision: \<open>issp_need_update\<close>\<close>

text \<open>
  \<open>issp_read_block\<close> is the programmer's block read, which is not part of the sources:
  it is a parameter that maps the block index and the offset to the return code and the
  byte left in \<open>ver_uc\<close>. \<open>idx\<close> and \<open>addr\<close> are \<open>uint8_t\<close>: the quotient (C division
  truncates towards zero) and the difference are cut to eight bits. The function returns
  its code together with the content of \<open>*update\<close>, which keeps the caller's value where
  the function does not write it. The source divides by \<open>block_size\<close> without a test;
  no theorem depends on the index and the offset that are passed to the read. Messages to
  the kernel log do not influence the control flow and are left out of all traces.
\<close>

definition version_idx :: "issp_platform_data \<Rightarrow> u8" where
  "version_idx pd = word_of_int (sint (version_addr pd) sdiv sint (block_size pd))"

definition version_off :: "issp_platform_data \<Rightarrow> u8" where
  "version_off pd = ucast (version_addr pd - ucast (version_idx pd) * block_size pd)"

definition issp_need_update ::
  "(u8 \<Rightarrow> u8 \<Rightarrow> int \<times> u8) \<Rightarrow> issp_host \<Rightarrow> bool \<Rightarrow> int \<times> bool" where
  "issp_need_update read_block host update =
     (let idx = version_idx (pdata host);
          addr_b = version_off (pdata host)
      in case read_block idx addr_b of
           (ret, ver_uc) \<Rightarrow>
             if ret = - EACCES then (0, True)
             else if ret = 1 then
               (0, ver_uc < version_fw host
                   \<or> (ver_uc \<noteq> version_fw host \<and> force_update (pdata host)))
             else (ret, update))"

text \<open>
  Modelled from the spec: the outcomes of \<open>issp_read_block\<close>, which is not part of the
  sources. The programmer's block read gives the bytes asked for or an error
  (\<open>read_block(index, offset, length) -> bytes|error\<close>): for the one-byte read of
  \<open>issp_need_update\<close> the return code is 1, the number of bytes read, or the negative
  code of an error.
\<close>

definition read_outcome :: "int \<Rightarrow> bool" where
  "read_outcome ret \<longleftrightarrow> ret = 1 \<or> ret < 0"

section \<open>Attach sequence: \<open>issp_probe\<close>\<close>

text \<open>
  The attach sequence is a function from the outcomes of the calls it makes (the
  environment) to its return code and the list of calls that act on the device, the pins
  and the resources, in program order.
\<close>

datatype gpio = Reset_gpio | Data_gpio | Clk_gpio

datatype sysfs_attr = Attr_issp_reset | Attr_issp_usbreset | Attr_issp_data | Attr_issp_clk

datatype event =
    Gpio_request gpio
  | Gpio_direction_output gpio nat
  | Gpio_direction_input gpio
  | Kzalloc_host
  | Request_firmware
  | Uc_program
  | Program int
  | Mutex_init
  | Create_file sysfs_attr
  | Kzalloc_wake_lock
  | Wake_lock_init
  | Create_workqueue
  | Init_delayed_work
  | Uc_run
  | Release_firmware
  | Kfree_wake_lock
  | Kfree_host

text \<open>
  The environment: the platform data (\<open>None\<close> is \<open>NULL\<close>), the answers of
  \<open>gpio_is_valid\<close> and \<open>devm_gpio_request\<close>, whether the allocations succeed, the
  return code of \<open>request_ihex_firmware\<close> with the image it loads, the silicon identity
  that \<open>issp_uc_program\<close> reads into \<open>host->si_id\<close>, the block read, the return code of
  \<open>issp_program\<close>, and the value that the uninitialised local \<open>update\<close> happens to hold.
\<close>

record probe_env =
  platform_data :: "issp_platform_data option"
  gpio_is_valid :: "gpio \<Rightarrow> bool"
  devm_gpio_request :: "gpio \<Rightarrow> int"
  kzalloc_host_ok :: bool
  request_ihex_firmware :: "int \<times> ihex_binrec list"
  uc_si_id :: "u8 \<times> u8 \<times> u8 \<times> u8"
  issp_read_block :: "u8 \<Rightarrow> u8 \<Rightarrow> int \<times> u8"
  issp_program :: int
  update_uninit :: bool
  kzalloc_wake_lock_ok :: bool
  create_workqueue_ok :: bool

definition si_id_differs :: "u8 \<times> u8 \<times> u8 \<times> u8 \<Rightarrow> u8 \<times> u8 \<times> u8 \<times> u8 \<Rightarrow> bool" where
  "si_id_differs h p =
     (case h of (h0, h1, h2, h3) \<Rightarrow> case p of (p0, p1, p2, p3) \<Rightarrow>
        h0 \<noteq> p0 \<or> h1 \<noteq> p1 \<or> h2 \<noteq> p2 \<or> h3 \<noteq> p3)"

text \<open>The three exits of \<open>issp_probe\<close>: the labels \<open>err_id\<close>, \<open>err\<close> and \<open>err_work\<close>.\<close>

definition exit_err_id :: "event list \<Rightarrow> int \<times> event list" where
  "exit_err_id t =
     (0, t @ [Uc_run, Gpio_direction_input Data_gpio, Gpio_direction_input Clk_gpio,
              Release_firmware])"

definition exit_err :: "event list \<Rightarrow> int \<times> event list" where
  "exit_err t =
     (- ENOMEM, t @ [Gpio_direction_input Data_gpio, Gpio_direction_input Clk_gpio,
                     Release_firmware, Kfree_host])"

definition exit_err_work :: "event list \<Rightarrow> int \<times> event list" where
  "exit_err_work t = exit_err (t @ [Kfree_wake_lock])"

text \<open>
  \<open>issp_probe\<close> in four parts: the three pin requests, the set-up after the update
  decision (from \<open>mutex_init\<close> on), the part from \<open>issp_check_fw\<close> to the decision, and
  the whole function.
\<close>

definition probe_gpio_requests :: "probe_env \<Rightarrow> int \<times> event list" where
  "probe_gpio_requests e =
     (let ret = devm_gpio_request e Reset_gpio;
          t = [Gpio_request Reset_gpio];
          (ret, t) = (if ret = 0 then (devm_gpio_request e Data_gpio, t @ [Gpio_request Data_gpio])
                      else (ret, t));
          (ret, t) = (if ret = 0 then (devm_gpio_request e Clk_gpio, t @ [Gpio_request Clk_gpio])
                      else (ret, t))
      in (ret, t))"

definition probe_setup :: "probe_env \<Rightarrow> event list \<Rightarrow> int \<times> event list" where
  "probe_setup e t =
     (let t = t @ [Mutex_init, Create_file Attr_issp_reset, Create_file Attr_issp_usbreset,
                   Create_file Attr_issp_data, Create_file Attr_issp_clk, Kzalloc_wake_lock]
      in if \<not> kzalloc_wake_lock_ok e then exit_err t
         else let t = t @ [Wake_lock_init, Create_workqueue]
              in if \<not> create_workqueue_ok e then exit_err_work t
                 else exit_err_id (t @ [Init_delayed_work]))"

definition probe_attach ::
  "issp_priv \<Rightarrow> probe_env \<Rightarrow> issp_platform_data \<Rightarrow> issp_host \<Rightarrow> event list
     \<Rightarrow> int \<times> event list" where
  "probe_attach K e pd host t =
     (case issp_check_fw K host of
        (ret, host) \<Rightarrow>
          if ret \<noteq> 0 then exit_err t
          else let host = host\<lparr>si_id := uc_si_id e\<rparr>;
                   t = t @ [Uc_program]
               in if si_id_differs (si_id host) (pdata_si_id pd) then exit_err_id t
                  else case issp_need_update (issp_read_block e) host (update_uninit e) of
                         (ret, update) \<Rightarrow>
                           if ret \<noteq> 0 then exit_err_id t
                           else probe_setup e (if update then t @ [Program (issp_program e)] else t))"

definition issp_probe :: "issp_priv \<Rightarrow> probe_env \<Rightarrow> int \<times> event list" where
  "issp_probe K e =
     (case platform_data e of
        None \<Rightarrow> (- EINVAL, [])
      | Some pd \<Rightarrow>
          if \<not> gpio_is_valid e Reset_gpio \<or> \<not> gpio_is_valid e Data_gpio
             \<or> \<not> gpio_is_valid e Clk_gpio
          then (- EINVAL, [])
          else case probe_gpio_requests e of
                 (ret, t) \<Rightarrow>
                   if ret \<noteq> 0 then (ret, t)
                   else let t = t @ [Gpio_direction_output Reset_gpio 0,
                                     Gpio_direction_input Data_gpio,
                                     Gpio_direction_output Clk_gpio 0, Kzalloc_host]
                        in if \<not> kzalloc_host_ok e then (- ENOMEM, t)
                           else let t = t @ [Request_firmware] in
                                case request_ihex_firmware e of
                                  (ret, img) \<Rightarrow>
                                    if ret \<noteq> 0 then (ret, t)
                                    else probe_attach K e pd (new_host pd img) t)"

section \<open>Recovery coordinator\<close>

text \<open>
  The reset paths are the lists of the calls they make. \<open>g_issp_wake_lock\<close> is a pointer
  to the suspend guard (\<open>None\<close> is \<open>NULL\<close>); the guard itself is held or not.
\<close>

datatype action =
    Wake_lock
  | Wake_unlock
  | Mutex_lock
  | Mutex_unlock
  | Usb_unload
  | Uc_reset
  | Usb_reload
  | Msleep nat
  | Queue_delayed_work nat

record wake_lock =
  held :: bool

definition ISSP_RECOVERY_DELAY :: nat where
  "ISSP_RECOVERY_DELAY = 10"

text \<open>The loop \<open>for (i = 0; i < 1; i++)\<close> of \<open>issp_recovery_work_func\<close>.\<close>

function issp_recovery_attempts :: "nat \<Rightarrow> action list" where
  "issp_recovery_attempts i =
     (if i < 1
      then [Mutex_lock, Usb_unload, Uc_reset, Usb_reload, Mutex_unlock, Msleep 500]
           @ issp_recovery_attempts (i + 1)
      else [])"
  by pat_completeness auto
termination
  by (relation "measure (\<lambda>i. 1 - i)") auto

definition issp_recovery_work_func :: "wake_lock option \<Rightarrow> action list" where
  "issp_recovery_work_func g_issp_wake_lock =
     (case g_issp_wake_lock of
        None \<Rightarrow> []
      | Some w \<Rightarrow> issp_recovery_attempts 0 @ [Wake_unlock])"

definition issp_start_recovery_work :: "bool \<Rightarrow> action list" where
  "issp_start_recovery_work issp_workqueue =
     (if \<not> issp_workqueue then []
      else [Wake_lock, Queue_delayed_work ISSP_RECOVERY_DELAY])"

definition issp_reset_set :: "nat \<Rightarrow> nat \<times> action list" where
  "issp_reset_set count =
     (count, [Wake_lock, Mutex_lock, Uc_reset, Mutex_unlock, Wake_unlock])"





section \<open>Specification predicates\<close>

text \<open>
  The four facts of the validation, for one record. The span of a record is the half-open
  interval from \<open>addr\<close> to \<open>addr + len\<close>, in the arithmetic of the code.
  \<open>version_hit\<close> is the test that the code makes for the fourth fact.
\<close>

definition ends_at_size :: "issp_platform_data \<Rightarrow> ihex_binrec \<Rightarrow> bool" where
  "ends_at_size pd r \<longleftrightarrow> addr r + ucast (len r) = block_size pd * blocks pd"

definition at_security :: "issp_priv \<Rightarrow> ihex_binrec \<Rightarrow> bool" where
  "at_security K r \<longleftrightarrow> addr r = ISSP_FW_SECURITY_ADDR K"

definition at_checksum :: "issp_priv \<Rightarrow> ihex_binrec \<Rightarrow> bool" where
  "at_checksum K r \<longleftrightarrow> addr r = ISSP_FW_CHECKSUM_ADDR K"

definition version_hit :: "issp_platform_data \<Rightarrow> ihex_binrec \<Rightarrow> bool" where
  "version_hit pd r \<longleftrightarrow>
     addr r <s version_addr pd \<and> version_addr pd <s addr r + ucast (len r)"

definition spans_version :: "issp_platform_data \<Rightarrow> ihex_binrec \<Rightarrow> bool" where
  "spans_version pd r \<longleftrightarrow>
     addr r \<le>s version_addr pd \<and> version_addr pd <s addr r + ucast (len r)"

definition checksum_of :: "ihex_binrec \<Rightarrow> u16" where
  "checksum_of r = push_bit 8 (ucast (data r 0)) OR ucast (data r 1)"

definition version_of :: "issp_platform_data \<Rightarrow> ihex_binrec \<Rightarrow> u8" where
  "version_of pd r = data r (unat (version_addr pd - addr r))"

definition hits :: "issp_priv \<Rightarrow> issp_platform_data \<Rightarrow> ihex_binrec \<Rightarrow> nat" where
  "hits K pd r = of_bool (ends_at_size pd r) + of_bool (at_security K r)
                 + of_bool (at_checksum K r) + of_bool (version_hit pd r)"

text \<open>
  The records that the validation loop visits when it starts with the counter \<open>c\<close>: it
  stops behind the record at which the counter is exactly four.
\<close>

fun scanned :: "issp_priv \<Rightarrow> issp_platform_data \<Rightarrow> ihex_binrec list \<Rightarrow> nat \<Rightarrow> ihex_binrec list" where
  "scanned K pd [] c = []"
| "scanned K pd (r # rs) c =
     (if c + hits K pd r = 4 then [r] else r # scanned K pd rs (c + hits K pd r))"

text \<open>The value that the last record with \<open>P\<close> leaves in a field, \<open>d\<close> if there is none.\<close>

definition last_val :: "('r \<Rightarrow> bool) \<Rightarrow> ('r \<Rightarrow> 'v) \<Rightarrow> 'v \<Rightarrow> 'r list \<Rightarrow> 'v" where
  "last_val P f d xs = foldl (\<lambda>d r. if P r then f r else d) d xs"

text \<open>The payload of a record and of an image, and the number of payload bytes.\<close>

definition rec_bytes :: "ihex_binrec \<Rightarrow> u8 list" where
  "rec_bytes r = map (data r) [0..<unat (len r)]"

definition image_bytes :: "ihex_binrec list \<Rightarrow> u8 list" where
  "image_bytes recs = concat (map rec_bytes recs)"

definition image_size :: "ihex_binrec list \<Rightarrow> nat" where
  "image_size recs = sum_list (map (\<lambda>r. unat (len r)) recs)"

text \<open>
  The bytes that are still to come at a cursor, and the cursor invariant of the data
  model: the offset is below the length of the current record.
\<close>

definition pending :: "issp_host \<Rightarrow> u8 list" where
  "pending host =
     (case cur_rec host of
        [] \<Rightarrow> []
      | r # rest \<Rightarrow> drop (cur_idx host) (rec_bytes r) @ image_bytes rest)"

definition cursor_ok :: "issp_host \<Rightarrow> bool" where
  "cursor_ok host \<longleftrightarrow>
     (case cur_rec host of
        [] \<Rightarrow> True
      | r # rest \<Rightarrow> cur_idx host < unat (len r) \<and> (\<forall>q\<in>set rest. len q \<noteq> 0))"

text \<open>The attach sequence has loaded the image \<open>img\<close>: every step before the validation succeeded.\<close>

definition loaded :: "probe_env \<Rightarrow> issp_platform_data \<Rightarrow> ihex_binrec list \<Rightarrow> bool" where
  "loaded e pd img \<longleftrightarrow>
     platform_data e = Some pd
     \<and> gpio_is_valid e Reset_gpio \<and> gpio_is_valid e Data_gpio \<and> gpio_is_valid e Clk_gpio
     \<and> devm_gpio_request e Reset_gpio = 0 \<and> devm_gpio_request e Data_gpio = 0
     \<and> devm_gpio_request e Clk_gpio = 0
     \<and> kzalloc_host_ok e \<and> request_ihex_firmware e = (0, img) \<and> img \<noteq> []"

definition setup_events :: "event list" where
  "setup_events =
     [Gpio_request Reset_gpio, Gpio_request Data_gpio, Gpio_request Clk_gpio,
      Gpio_direction_output Reset_gpio 0, Gpio_direction_input Data_gpio,
      Gpio_direction_output Clk_gpio 0, Kzalloc_host, Request_firmware]"





section \<open>Example inputs\<close>

text \<open>Memory that holds the given bytes, followed by zeros.\<close>

definition bytes :: "u8 list \<Rightarrow> nat \<Rightarrow> u8" where
  "bytes xs i = (if i < length xs then xs ! i else 0)"

definition ex_priv :: issp_priv where
  "ex_priv = \<lparr>ISSP_FW_SECURITY_ADDR = 0x100000, ISSP_FW_CHECKSUM_ADDR = 0x200000\<rparr>"

definition ex_pdata :: issp_platform_data where
  "ex_pdata = \<lparr>block_size = 128, blocks = 256, version_addr = 0x1000, force_update = False,
                pdata_si_id = (0, 0, 0, 0)\<rparr>"

definition ex_dup_image :: "ihex_binrec list" where
  "ex_dup_image =
     [\<lparr>addr = 0x7FC0, len = 64, data = bytes []\<rparr>,
      \<lparr>addr = 0x7FF0, len = 16, data = bytes []\<rparr>,
      \<lparr>addr = 0x100000, len = 64, data = bytes []\<rparr>,
      \<lparr>addr = 0x200000, len = 2, data = bytes [0x12, 0x34]\<rparr>]"

definition ex_good_image :: "ihex_binrec list" where
  "ex_good_image =
     [\<lparr>addr = 0x0FFE, len = 4, data = bytes [1, 2, 5, 4]\<rparr>,
      \<lparr>addr = 0x7FC0, len = 64, data = bytes []\<rparr>,
      \<lparr>addr = 0x100000, len = 64, data = bytes []\<rparr>,
      \<lparr>addr = 0x200000, len = 2, data = bytes [0x12, 0x34]\<rparr>]"

definition ex_env :: probe_env where
  "ex_env =
     \<lparr>platform_data = Some ex_pdata, gpio_is_valid = (\<lambda>g. True),
      devm_gpio_request = (\<lambda>g. 0), kzalloc_host_ok = True,
      request_ihex_firmware = (0, ex_good_image), uc_si_id = (0, 0, 0, 0),
      issp_read_block = (\<lambda>idx off. (1, 3)), issp_program = 0, update_uninit = False,
      kzalloc_wake_lock_ok = True, create_workqueue_ok = True\<rparr>"

definition ex_start_rec :: ihex_binrec where
  "ex_start_rec = \<lparr>addr = 0x1000, len = 4, data = bytes [5, 6, 7, 8]\<rparr>"

definition ex_start_image :: "ihex_binrec list" where
  "ex_start_image =
     [ex_start_rec,
      \<lparr>addr = 0x7FC0, len = 64, data = bytes []\<rparr>,
      \<lparr>addr = 0x100000, len = 64, data = bytes []\<rparr>,
      \<lparr>addr = 0x200000, len = 2, data = bytes [0x12, 0x34]\<rparr>]"

definition ex_invalid_image :: "ihex_binrec list" where
  "ex_invalid_image = [\<lparr>addr = 0x100000, len = 64, data = bytes []\<rparr>]"

definition ex_small_image :: "ihex_binrec list" where
  "ex_small_image =
     [\<lparr>addr = 0, len = 2, data = bytes [1, 2]\<rparr>,
      \<lparr>addr = 2, len = 3, data = bytes [3, 4, 5]\<rparr>]"



section \<open>Validation: the loop\<close>

lemma check_rec_snd:
  "pdata h = pd \<Longrightarrow>
   snd (issp_check_rec K (block_size pd * blocks pd) r rest h c) = c + hits K pd r"
  unfolding issp_check_rec_def Let_def hits_def ends_at_size_def at_security_def
      at_checksum_def version_hit_def
  by (cases "addr r + ucast (len r) = block_size pd * blocks pd";
      cases "addr r = ISSP_FW_SECURITY_ADDR K";
      cases "addr r = ISSP_FW_CHECKSUM_ADDR K";
      cases "addr r <s version_addr pd \<and> version_addr pd <s addr r + ucast (len r)";
      simp)

lemma check_rec_pdata: "pdata (fst (issp_check_rec K sz r rest h c)) = pdata h"
  by (simp add: issp_check_rec_def Let_def)

lemma check_rec_fw: "fw (fst (issp_check_rec K sz r rest h c)) = fw h"
  by (simp add: issp_check_rec_def Let_def)

lemma check_rec_checksum:
  "checksum_fw (fst (issp_check_rec K sz r rest h c)) =
     (if at_checksum K r then checksum_of r else checksum_fw h)"
  by (simp add: issp_check_rec_def Let_def at_checksum_def checksum_of_def)

lemma check_rec_version:
  "version_fw (fst (issp_check_rec K sz r rest h c)) =
     (if version_hit (pdata h) r then version_of (pdata h) r else version_fw h)"
  by (auto simp: issp_check_rec_def Let_def version_hit_def version_of_def)

lemma loop_snd:
  "pdata h = pd \<Longrightarrow>
   snd (issp_check_fw_loop K (block_size pd * blocks pd) recs h c)
     = c + sum_list (map (hits K pd) (scanned K pd recs c))"
proof (induction recs arbitrary: h c)
  case Nil
  then show ?case by simp
next
  case (Cons r rs)
  obtain h' c' where step: "issp_check_rec K (block_size pd * blocks pd) r rs h c = (h', c')"
    by (cases "issp_check_rec K (block_size pd * blocks pd) r rs h c")
  have c': "c' = c + hits K pd r"
    using check_rec_snd [OF Cons.prems, of K r rs c] step by simp
  have pd': "pdata h' = pd"
    using check_rec_pdata [of K "block_size pd * blocks pd" r rs h c] step Cons.prems by simp
  show ?case
    using step c' Cons.IH [OF pd', of c'] by simp
qed

lemma loop_pdata: "pdata (fst (issp_check_fw_loop K sz recs h c)) = pdata h"
proof (induction recs arbitrary: h c)
  case Nil
  then show ?case by simp
next
  case (Cons r rs)
  obtain h' c' where step: "issp_check_rec K sz r rs h c = (h', c')"
    by (cases "issp_check_rec K sz r rs h c")
  have "pdata h' = pdata h"
    using check_rec_pdata [of K sz r rs h c] step by simp
  then show ?case
    using step Cons.IH [of h' c'] by simp
qed

lemma loop_checksum:
  "pdata h = pd \<Longrightarrow>
   checksum_fw (fst (issp_check_fw_loop K (block_size pd * blocks pd) recs h c))
     = last_val (at_checksum K) checksum_of (checksum_fw h) (scanned K pd recs c)"
proof (induction recs arbitrary: h c)
  case Nil
  then show ?case by (simp add: last_val_def)
next
  case (Cons r rs)
  obtain h' c' where step: "issp_check_rec K (block_size pd * blocks pd) r rs h c = (h', c')"
    by (cases "issp_check_rec K (block_size pd * blocks pd) r rs h c")
  have c': "c' = c + hits K pd r"
    using check_rec_snd [OF Cons.prems, of K r rs c] step by simp
  have pd': "pdata h' = pd"
    using check_rec_pdata [of K "block_size pd * blocks pd" r rs h c] step Cons.prems by simp
  have ck: "checksum_fw h' = (if at_checksum K r then checksum_of r else checksum_fw h)"
    using check_rec_checksum [of K "block_size pd * blocks pd" r rs h c] step by simp
  show ?case
    using step c' ck Cons.IH [OF pd', of c'] by (simp add: last_val_def)
qed

lemma loop_version:
  "pdata h = pd \<Longrightarrow>
   version_fw (fst (issp_check_fw_loop K (block_size pd * blocks pd) recs h c))
     = last_val (version_hit pd) (version_of pd) (version_fw h) (scanned K pd recs c)"
proof (induction recs arbitrary: h c)
  case Nil
  then show ?case by (simp add: last_val_def)
next
  case (Cons r rs)
  obtain h' c' where step: "issp_check_rec K (block_size pd * blocks pd) r rs h c = (h', c')"
    by (cases "issp_check_rec K (block_size pd * blocks pd) r rs h c")
  have c': "c' = c + hits K pd r"
    using check_rec_snd [OF Cons.prems, of K r rs c] step by simp
  have pd': "pdata h' = pd"
    using check_rec_pdata [of K "block_size pd * blocks pd" r rs h c] step Cons.prems by simp
  have ck: "version_fw h' = (if version_hit pd r then version_of pd r else version_fw h)"
    using check_rec_version [of K "block_size pd * blocks pd" r rs h c] step Cons.prems by simp
  show ?case
    using step c' ck Cons.IH [OF pd', of c'] by (simp add: last_val_def)
qed

lemma scanned_prefix: "\<exists>post. recs = scanned K pd recs c @ post"
  by (induction recs arbitrary: c) auto

lemma scanned_total:
  "4 \<le> c + sum_list (map (hits K pd) (scanned K pd recs c))
     \<longleftrightarrow> 4 \<le> c + sum_list (map (hits K pd) recs)"
proof (induction recs arbitrary: c)
  case Nil
  then show ?case by simp
next
  case (Cons r rs)
  show ?case
  proof (cases "c + hits K pd r = 4")
    case True
    then show ?thesis by simp
  next
    case False
    then show ?thesis
      using Cons.IH [of "c + hits K pd r"] by (simp add: add.assoc)
  qed
qed

lemma last_val_const:
  "(\<forall>r\<in>set xs. P r \<longrightarrow> f r = v) \<Longrightarrow>
   last_val P f d xs = (if \<exists>r\<in>set xs. P r then v else d)"
  unfolding last_val_def
  by (induction xs arbitrary: d) auto

lemma sum_hits:
  "sum_list (map (hits K pd) xs) =
     length (filter (ends_at_size pd) xs) + length (filter (at_security K) xs)
     + length (filter (at_checksum K) xs) + length (filter (version_hit pd) xs)"
  by (induction xs) (auto simp: hits_def)

lemma filter_unique:
  "length (filter P xs) \<le> 1 \<Longrightarrow> x \<in> set xs \<Longrightarrow> y \<in> set xs \<Longrightarrow> P x \<Longrightarrow> P y \<Longrightarrow> x = y"
proof (induction xs)
  case Nil
  then show ?case by simp
next
  case (Cons a xs)
  show ?case
  proof (cases "P a")
    case True
    with Cons.prems(1) have "filter P xs = []" by simp
    then have "\<forall>z\<in>set xs. \<not> P z" by (simp add: filter_empty_conv)
    with Cons.prems True show ?thesis by auto
  next
    case False
    with Cons show ?thesis by auto
  qed
qed

lemma four_le:
  "a \<le> 1 \<Longrightarrow> b \<le> 1 \<Longrightarrow> c \<le> 1 \<Longrightarrow> d \<le> (1::nat) \<Longrightarrow>
   (4 \<le> a + b + c + d) = (a \<noteq> 0 \<and> b \<noteq> 0 \<and> c \<noteq> 0 \<and> d \<noteq> 0)"
  by arith

lemma spans_version_hit:
  "addr r \<noteq> version_addr pd \<Longrightarrow> spans_version pd r = version_hit pd r"
  by (auto simp: spans_version_def version_hit_def word_sless_eq)

lemma check_fw_ret:
  "fst (issp_check_fw K host) = (if 4 \<le> sum_list (map (hits K (pdata host)) (fw host)) then 0 else - EINVAL)"
proof -
  let ?pd = "pdata host"
  obtain h' c' where lp:
    "issp_check_fw_loop K (block_size ?pd * blocks ?pd) (fw host) host 0 = (h', c')"
    by (cases "issp_check_fw_loop K (block_size ?pd * blocks ?pd) (fw host) host 0")
  have "c' = sum_list (map (hits K ?pd) (scanned K ?pd (fw host) 0))"
    using loop_snd [of host ?pd K "fw host" 0] lp by simp
  then have "c' < 4 \<longleftrightarrow> \<not> 4 \<le> sum_list (map (hits K ?pd) (fw host))"
    using scanned_total [of 0 K ?pd "fw host"] by linarith
  then show ?thesis
    using lp by (simp add: issp_check_fw_def Let_def)
qed

lemma check_fw_pdata: "pdata (snd (issp_check_fw K host)) = pdata host"
proof -
  obtain h' c' where lp:
    "issp_check_fw_loop K (block_size (pdata host) * blocks (pdata host)) (fw host) host 0 = (h', c')"
    by (cases "issp_check_fw_loop K (block_size (pdata host) * blocks (pdata host)) (fw host) host 0")
  then show ?thesis
    using loop_pdata [of K "block_size (pdata host) * blocks (pdata host)" "fw host" host 0]
    by (simp add: issp_check_fw_def Let_def)
qed

text \<open>
  Every image in which all four conditions are met validates, whatever the records that
  meet them and their order.
\<close>

lemma check_fw_all_four:
  assumes "\<exists>r\<in>set (fw host). ends_at_size (pdata host) r"
    and "\<exists>r\<in>set (fw host). at_security K r"
    and "\<exists>r\<in>set (fw host). at_checksum K r"
    and "\<exists>r\<in>set (fw host). version_hit (pdata host) r"
  shows "fst (issp_check_fw K host) = 0"
proof -
  have pos: "(\<exists>r\<in>set xs. P r) \<Longrightarrow> 1 \<le> length (filter P xs)" for P and xs :: "ihex_binrec list"
    by (induction xs) auto
  have "4 \<le> sum_list (map (hits K (pdata host)) (fw host))"
    unfolding sum_hits
    using pos [OF assms(1)] pos [OF assms(2)] pos [OF assms(3)] pos [OF assms(4)] by linarith
  then show ?thesis by (simp add: check_fw_ret)
qed

text \<open>
  The span of a record in integers: where \<open>addr + len\<close> does not leave the range of
  \<open>int\<close>, the comparisons of the code are those of the integer values.
\<close>

lemma sint_ucast16: "sint (ucast (l :: 16 word) :: 32 word) = uint l"
proof -
  have b: "uint l < 2 ^ 16" using uint_bounded [of l] by simp
  then have "uint l < 2 ^ 32" by simp
  then have "take_bit 32 (uint l) = uint l"
    by (simp add: take_bit_int_eq_self)
  then have u: "uint (ucast l :: 32 word) = uint l"
    by (simp add: unsigned_ucast_eq)
  from b have hi: "uint l < 2 ^ 31" by simp
  have "- (2 ^ 31) \<le> (0 :: int)" by simp
  also have "0 \<le> uint l" by simp
  finally have "- (2 ^ 31) \<le> uint l" .
  then have "signed_take_bit 31 (uint l) = uint l"
    using hi by (rule signed_take_bit_int_eq_self)
  then show ?thesis
    by (simp add: sint_uint u)
qed

lemma sint_span:
  assumes "sint (addr r) + uint (len r) < 2 ^ 31"
  shows "sint (addr r + ucast (len r)) = sint (addr r) + uint (len r)"
proof -
  have lo: "- (2 ^ 31) \<le> sint (addr r)" using sint_ge [of "addr r"] by simp
  have nn: "0 \<le> uint (len r)" by simp
  have lo': "- (2 ^ 31) \<le> sint (addr r) + uint (len r)" using lo nn by linarith
  have "sint (addr r + ucast (len r)) = signed_take_bit 31 (sint (addr r) + uint (len r))"
    by (simp add: sint_word_ariths sint_ucast16)
  also have "\<dots> = sint (addr r) + uint (len r)"
    using lo' assms by (intro signed_take_bit_int_eq_self) simp_all
  finally show ?thesis .
qed

lemma spans_version_int:
  assumes "sint (addr r) + uint (len r) < 2 ^ 31"
  shows "spans_version pd r \<longleftrightarrow>
     sint (addr r) \<le> sint (version_addr pd) \<and> sint (version_addr pd) < sint (addr r) + uint (len r)"
  by (simp add: spans_version_def word_sle_eq word_sless_alt sint_span [OF assms])

text \<open>
  C1, as amended. For every firmware image (with at least one record) in which each of
  the four conditions is met by at most one record and no record starts exactly at the
  version address: validation succeeds if and only if all four facts are established by
  some record (a record with address + length equal to block_size * blocks, a record at
  the security address, a record at the checksum address, a record whose span contains
  the version address), it fails with the invalid-image error otherwise, and on success
  the checksum is the big-endian value of the first two data bytes of the checksum record
  and the version is the byte at the version address in the record that contains it.
\<close>

theorem issp_check_fw_unique_markers:
  assumes ne: "fw host \<noteq> []"
    and u1: "length (filter (ends_at_size (pdata host)) (fw host)) \<le> 1"
    and u2: "length (filter (at_security K) (fw host)) \<le> 1"
    and u3: "length (filter (at_checksum K) (fw host)) \<le> 1"
    and u4: "length (filter (spans_version (pdata host)) (fw host)) \<le> 1"
    and ns: "\<forall>r\<in>set (fw host). addr r \<noteq> version_addr (pdata host)"
  shows "(fst (issp_check_fw K host) = 0 \<longleftrightarrow>
            (\<exists>r\<in>set (fw host). ends_at_size (pdata host) r)
          \<and> (\<exists>r\<in>set (fw host). at_security K r)
          \<and> (\<exists>r\<in>set (fw host). at_checksum K r)
          \<and> (\<exists>r\<in>set (fw host). spans_version (pdata host) r))
       \<and> (fst (issp_check_fw K host) \<noteq> 0 \<longrightarrow> fst (issp_check_fw K host) = - EINVAL)
       \<and> (fst (issp_check_fw K host) = 0 \<longrightarrow>
            (\<forall>r\<in>set (fw host). at_checksum K r \<longrightarrow>
               checksum_fw (snd (issp_check_fw K host)) = checksum_of r)
          \<and> (\<forall>r\<in>set (fw host). spans_version (pdata host) r \<longrightarrow>
               version_fw (snd (issp_check_fw K host)) = version_of (pdata host) r))"
proof -
  let ?pd = "pdata host" and ?recs = "fw host"
  let ?sc = "scanned K ?pd ?recs 0"
  have vh: "filter (version_hit ?pd) xs = filter (spans_version ?pd) xs"
    if "set xs \<subseteq> set ?recs" for xs
    using that ns by (intro filter_cong) (auto simp: spans_version_hit)
  have nonempty: "(\<exists>r\<in>set xs. P r) \<longleftrightarrow> length (filter P xs) \<noteq> 0" for P and xs :: "ihex_binrec list"
    by (simp add: filter_empty_conv)
  have ret: "fst (issp_check_fw K host) = (if 4 \<le> sum_list (map (hits K ?pd) ?recs) then 0 else - EINVAL)"
    by (rule check_fw_ret)
  have tot: "sum_list (map (hits K ?pd) ?recs) =
       length (filter (ends_at_size ?pd) ?recs) + length (filter (at_security K) ?recs)
     + length (filter (at_checksum K) ?recs) + length (filter (spans_version ?pd) ?recs)"
    using sum_hits [of K ?pd ?recs] vh [of ?recs] by simp
  have iff: "fst (issp_check_fw K host) = 0 \<longleftrightarrow>
            (\<exists>r\<in>set ?recs. ends_at_size ?pd r) \<and> (\<exists>r\<in>set ?recs. at_security K r)
          \<and> (\<exists>r\<in>set ?recs. at_checksum K r) \<and> (\<exists>r\<in>set ?recs. spans_version ?pd r)"
    unfolding nonempty ret tot using four_le [OF u1 u2 u3 u4] by (simp add: EINVAL_def)
  have err: "fst (issp_check_fw K host) \<noteq> 0 \<longrightarrow> fst (issp_check_fw K host) = - EINVAL"
    unfolding ret by simp
  have vals: "(\<forall>r\<in>set ?recs. at_checksum K r \<longrightarrow>
               checksum_fw (snd (issp_check_fw K host)) = checksum_of r)
          \<and> (\<forall>r\<in>set ?recs. spans_version ?pd r \<longrightarrow>
               version_fw (snd (issp_check_fw K host)) = version_of ?pd r)"
    if ok: "fst (issp_check_fw K host) = 0"
  proof -
    obtain h' c' where lp:
      "issp_check_fw_loop K (block_size ?pd * blocks ?pd) ?recs host 0 = (h', c')"
      by (cases "issp_check_fw_loop K (block_size ?pd * blocks ?pd) ?recs host 0")
    have h': "snd (issp_check_fw K host) = h'"
      using lp by (simp add: issp_check_fw_def Let_def)
    obtain post where post: "?recs = ?sc @ post"
      using scanned_prefix [of ?recs K ?pd 0] by blast
    then have sub: "set ?sc \<subseteq> set ?recs"
      by (metis set_append sup_ge1)
    have le: "length (filter P ?sc) \<le> length (filter P ?recs)" for P
      by (subst (2) post) simp
    have "4 \<le> sum_list (map (hits K ?pd) ?recs)"
      using ok ret by (simp add: EINVAL_def split: if_splits)
    then have "4 \<le> sum_list (map (hits K ?pd) ?sc)"
      using scanned_total [of 0 K ?pd ?recs] by simp
    then have four: "4 \<le> length (filter (ends_at_size ?pd) ?sc) + length (filter (at_security K) ?sc)
        + length (filter (at_checksum K) ?sc) + length (filter (spans_version ?pd) ?sc)"
      using sum_hits [of K ?pd ?sc] vh [OF sub] by simp
    have c3: "length (filter (at_checksum K) ?sc) \<noteq> 0"
      using four le [of "ends_at_size ?pd"] le [of "at_security K"] le [of "at_checksum K"]
        le [of "spans_version ?pd"] u1 u2 u3 u4 by linarith
    have c4: "length (filter (spans_version ?pd) ?sc) \<noteq> 0"
      using four le [of "ends_at_size ?pd"] le [of "at_security K"] le [of "at_checksum K"]
        le [of "spans_version ?pd"] u1 u2 u3 u4 by linarith
    have ex3: "\<exists>r\<in>set ?sc. at_checksum K r"
      using c3 nonempty [of ?sc "at_checksum K"] by simp
    have ex4: "\<exists>r\<in>set ?sc. version_hit ?pd r"
    proof -
      obtain x where x: "x \<in> set ?sc" "spans_version ?pd x"
        using c4 nonempty [of ?sc "spans_version ?pd"] by blast
      then have "addr x \<noteq> version_addr ?pd"
        using sub ns by blast
      then have "version_hit ?pd x"
        using x(2) spans_version_hit by blast
      then show ?thesis using x(1) by blast
    qed
    have cks: "checksum_fw h' = checksum_of r" if r: "r \<in> set ?recs" "at_checksum K r" for r
    proof -
      have "\<forall>x\<in>set ?sc. at_checksum K x \<longrightarrow> checksum_of x = checksum_of r"
        using filter_unique [OF u3 _ r(1) _ r(2)] sub by blast
      then have "last_val (at_checksum K) checksum_of (checksum_fw host) ?sc = checksum_of r"
        using last_val_const [of ?sc "at_checksum K" checksum_of "checksum_of r" "checksum_fw host"] ex3
        by simp
      then show ?thesis
        using loop_checksum [of host ?pd K ?recs 0] lp by simp
    qed
    have ver: "version_fw h' = version_of ?pd r" if r: "r \<in> set ?recs" "spans_version ?pd r" for r
    proof -
      have "\<forall>x\<in>set ?sc. version_hit ?pd x \<longrightarrow> version_of ?pd x = version_of ?pd r"
      proof (intro ballI impI)
        fix x assume x: "x \<in> set ?sc" "version_hit ?pd x"
        then have "x \<in> set ?recs" "spans_version ?pd x"
          using sub ns by (auto simp: spans_version_hit)
        then have "x = r" using filter_unique [OF u4 _ r(1) _ r(2)] by blast
        then show "version_of ?pd x = version_of ?pd r" by simp
      qed
      then have "last_val (version_hit ?pd) (version_of ?pd) (version_fw host) ?sc = version_of ?pd r"
        using last_val_const [of ?sc "version_hit ?pd" "version_of ?pd" "version_of ?pd r" "version_fw host"] ex4
        by simp
      then show ?thesis
        using loop_version [of host ?pd K ?recs 0] lp by simp
    qed
    show ?thesis using cks ver h' by simp
  qed
  show ?thesis using iff err vals by blast
qed

theorem issp_check_fw_unique_markers_witness:
  "fst (issp_check_fw ex_priv (new_host ex_pdata ex_good_image)) = 0
   \<and> checksum_fw (snd (issp_check_fw ex_priv (new_host ex_pdata ex_good_image))) = 0x1234
   \<and> version_fw (snd (issp_check_fw ex_priv (new_host ex_pdata ex_good_image))) = 5"
proof -
  let ?h = "new_host ex_pdata ex_good_image"
  have ne: "fw ?h \<noteq> []"
    by (simp add: new_host_def ex_good_image_def)
  have u1: "length (filter (ends_at_size (pdata ?h)) (fw ?h)) \<le> 1"
    by (simp add: new_host_def ex_pdata_def ex_good_image_def ends_at_size_def)
  have u2: "length (filter (at_security ex_priv) (fw ?h)) \<le> 1"
    by (simp add: new_host_def ex_priv_def ex_good_image_def at_security_def)
  have u3: "length (filter (at_checksum ex_priv) (fw ?h)) \<le> 1"
    by (simp add: new_host_def ex_priv_def ex_good_image_def at_checksum_def)
  have u4: "length (filter (spans_version (pdata ?h)) (fw ?h)) \<le> 1"
    by (simp add: new_host_def ex_pdata_def ex_good_image_def spans_version_def)
  have ns: "\<forall>r\<in>set (fw ?h). addr r \<noteq> version_addr (pdata ?h)"
    by (simp add: new_host_def ex_pdata_def ex_good_image_def)
  show ?thesis
    using issp_check_fw_unique_markers [of ?h ex_priv, OF ne u1 u2 u3 u4 ns]
    by (simp add: new_host_def ex_pdata_def ex_priv_def ex_good_image_def ends_at_size_def
        at_security_def at_checksum_def spans_version_def checksum_of_def version_of_def
        bytes_def)
qed

text \<open>
  As the specification states it, C1 fails: this image has two records that end at the
  device size, a security record and a checksum record, and no record whose span contains
  the version address; the counter reaches four and the image validates.
\<close>

theorem issp_check_fw_duplicate_counterexample:
  "fst (issp_check_fw ex_priv (new_host ex_pdata ex_dup_image)) = 0
   \<and> \<not> list_ex (spans_version ex_pdata) ex_dup_image"
  by (simp add: issp_check_fw_def issp_check_rec_def Let_def new_host_def ex_priv_def
      ex_pdata_def ex_dup_image_def spans_version_def)

text \<open>
  C4. The version condition of a record is to be confirmed exactly when the version
  address lies in the half-open span from address to address + length, the start address
  included. The code compares with \<open>></\<close> on the lower side: a record that starts at the
  version address confirms nothing and leaves the embedded version as it was, although
  the version byte is the first data byte of the record.
\<close>

theorem issp_check_rec_version_at_start:
  assumes "addr r = version_addr (pdata host)"
  shows "\<not> version_hit (pdata host) r
       \<and> version_fw (fst (issp_check_rec K sz r rest host checks)) = version_fw host
       \<and> snd (issp_check_rec K (block_size (pdata host) * blocks (pdata host)) r rest host checks)
           = checks + of_bool (ends_at_size (pdata host) r) + of_bool (at_security K r)
             + of_bool (at_checksum K r)"
proof -
  have nh: "\<not> version_hit (pdata host) r"
    using assms by (simp add: version_hit_def)
  then show ?thesis
    using check_rec_version [of K sz r rest host checks]
      check_rec_snd [of host "pdata host" K r rest checks]
    by (simp add: hits_def)
qed

theorem issp_check_rec_version_at_start_witness:
  "spans_version ex_pdata ex_start_rec
   \<and> version_of ex_pdata ex_start_rec = 5
   \<and> issp_check_rec ex_priv (128 * 256) ex_start_rec [] (new_host ex_pdata ex_start_image) 0
       = (new_host ex_pdata ex_start_image, 0)
   \<and> fst (issp_check_fw ex_priv (new_host ex_pdata ex_start_image)) = - EINVAL
   \<and> version_fw (snd (issp_check_fw ex_priv (new_host ex_pdata ex_start_image))) = 0"
proof -
  let ?h = "new_host ex_pdata ex_start_image"
  have a: "addr ex_start_rec = version_addr (pdata ?h)"
    by (simp add: ex_start_rec_def new_host_def ex_pdata_def)
  have "issp_check_rec ex_priv (128 * 256) ex_start_rec [] ?h 0 = (?h, 0)"
    by (simp add: issp_check_rec_def Let_def ex_start_rec_def new_host_def ex_pdata_def
        ex_priv_def)
  moreover have "spans_version ex_pdata ex_start_rec \<and> version_of ex_pdata ex_start_rec = 5"
    by (simp add: spans_version_def version_of_def ex_start_rec_def ex_pdata_def bytes_def)
  moreover have "fst (issp_check_fw ex_priv ?h) = - EINVAL
      \<and> version_fw (snd (issp_check_fw ex_priv ?h)) = 0"
    by (simp add: issp_check_fw_def issp_check_rec_def Let_def new_host_def ex_priv_def
        ex_pdata_def ex_start_image_def ex_start_rec_def)
  ultimately show ?thesis
    using issp_check_rec_version_at_start [OF a, of ex_priv "128 * 256" "[]" 0]
    by simp
qed

section \<open>Sequential byte extraction\<close>

lemma length_image_bytes: "length (image_bytes recs) = image_size recs"
  by (induction recs) (simp_all add: image_bytes_def image_size_def rec_bytes_def)

lemma drop_rec_bytes:
  "i < unat (len r) \<Longrightarrow> drop i (rec_bytes r) = data r i # drop (Suc i) (rec_bytes r)"
  by (simp only: rec_bytes_def drop_map drop_upt) (simp add: upt_conv_Cons)

lemma get_byte_step:
  assumes ok: "cursor_ok host" and ne: "cur_rec host \<noteq> []"
  shows "\<exists>b host'. issp_fw_get_byte host = Some (b, host') \<and> pending host = b # pending host'
           \<and> cursor_ok host' \<and> issp_fw_rewind host' = issp_fw_rewind host"
proof -
  obtain r rest where cr: "cur_rec host = r # rest"
    using ne by (cases "cur_rec host") auto
  have idx: "cur_idx host < unat (len r)" and rest: "\<forall>q\<in>set rest. len q \<noteq> 0"
    using ok cr by (simp_all add: cursor_ok_def)
  show ?thesis
  proof (cases "unat (len r) \<le> cur_idx host + 1")
    case True
    then have last: "Suc (cur_idx host) = unat (len r)" using idx by simp
    have nz: "0 < unat (len q)" if "q \<in> set rest" for q
      using rest that by (simp add: unat_gt_0)
    have "pending host = data r (cur_idx host) # image_bytes rest"
      using cr idx last by (simp add: pending_def drop_rec_bytes) (simp add: rec_bytes_def)
    moreover have "cursor_ok (host\<lparr>cur_rec := rest, cur_idx := 0\<rparr>)"
      using rest nz by (cases rest) (simp_all add: cursor_ok_def)
    moreover have "pending (host\<lparr>cur_rec := rest, cur_idx := 0\<rparr>) = image_bytes rest"
      by (cases rest) (simp_all add: pending_def image_bytes_def)
    ultimately show ?thesis
      using cr True by (simp add: issp_fw_get_byte_def Let_def issp_fw_rewind_def)
  next
    case False
    then have "pending host = data r (cur_idx host) # pending (host\<lparr>cur_idx := Suc (cur_idx host)\<rparr>)"
      using cr idx by (simp add: pending_def drop_rec_bytes)
    moreover have "cursor_ok (host\<lparr>cur_idx := Suc (cur_idx host)\<rparr>)"
      using cr False rest by (simp add: cursor_ok_def)
    ultimately show ?thesis
      using cr False by (simp add: issp_fw_get_byte_def Let_def issp_fw_rewind_def)
  qed
qed

lemma pending_Nil: "cursor_ok host \<Longrightarrow> pending host = [] \<Longrightarrow> cur_rec host = []"
  by (cases "cur_rec host") (auto simp: cursor_ok_def pending_def rec_bytes_def)

lemma get_bytes_pending:
  "cursor_ok host \<Longrightarrow> n \<le> length (pending host) \<Longrightarrow>
   \<exists>host'. get_bytes n host = Some (take n (pending host), host')
     \<and> pending host' = drop n (pending host) \<and> cursor_ok host'
     \<and> issp_fw_rewind host' = issp_fw_rewind host"
proof (induction n arbitrary: host)
  case 0
  then show ?case by simp
next
  case (Suc n)
  from Suc.prems(2) have "pending host \<noteq> []" by auto
  then have ne: "cur_rec host \<noteq> []" by (auto simp: pending_def)
  obtain b h1 where st: "issp_fw_get_byte host = Some (b, h1)" "pending host = b # pending h1"
      "cursor_ok h1" "issp_fw_rewind h1 = issp_fw_rewind host"
    using get_byte_step [OF Suc.prems(1) ne] by blast
  have "n \<le> length (pending h1)" using Suc.prems(2) st(2) by simp
  then obtain h2 where h2: "get_bytes n h1 = Some (take n (pending h1), h2)"
      "pending h2 = drop n (pending h1)" "cursor_ok h2" "issp_fw_rewind h2 = issp_fw_rewind h1"
    using Suc.IH [OF st(3)] by blast
  show ?case
    using st h2 by simp
qed

lemma rewind_ok:
  "\<forall>r\<in>set (fw host). len r \<noteq> 0 \<Longrightarrow> cursor_ok (issp_fw_rewind host)"
  by (cases "fw host") (auto simp: cursor_ok_def issp_fw_rewind_def unat_gt_0)

lemma rewind_rewind: "issp_fw_rewind (issp_fw_rewind host) = issp_fw_rewind host"
  by (simp add: issp_fw_rewind_def)

lemma rewind_pending: "pending (issp_fw_rewind host) = image_bytes (fw host)"
  by (cases "fw host") (simp_all add: pending_def issp_fw_rewind_def image_bytes_def)

text \<open>
  C10. For every firmware image (at least one record; the records have non-zero sizes,
  size zero being the end marker), after a rewind exactly as many calls of
  \<open>issp_fw_get_byte\<close> as the record sizes sum up to return the data bytes of all records
  in stream order, the cursor going to the next record with offset 0 where a record is
  exhausted; the cursor is then behind the last record, and a rewind followed by the same
  number of calls gives the same bytes again. Any smaller number of calls returns the
  bytes of the stream up to that position.
\<close>

theorem issp_fw_stream:
  assumes ne: "fw host \<noteq> []"
    and wf: "\<forall>r\<in>set (fw host). len r \<noteq> 0"
  shows "(\<exists>host'. get_bytes (image_size (fw host)) (issp_fw_rewind host)
             = Some (image_bytes (fw host), host')
          \<and> cur_rec host' = []
          \<and> issp_fw_get_byte host' = None
          \<and> get_bytes (image_size (fw host)) (issp_fw_rewind host')
             = Some (image_bytes (fw host), host'))
       \<and> (\<forall>n\<le>image_size (fw host).
            map_option fst (get_bytes n (issp_fw_rewind host))
              = Some (take n (image_bytes (fw host))))"
proof -
  let ?n = "image_size (fw host)" and ?h = "issp_fw_rewind host"
  have ok: "cursor_ok ?h" using wf by (rule rewind_ok)
  have n: "?n \<le> length (pending ?h)"
    by (simp add: rewind_pending length_image_bytes)
  obtain h' where h': "get_bytes ?n ?h = Some (take ?n (pending ?h), h')"
      "pending h' = drop ?n (pending ?h)" "cursor_ok h'" "issp_fw_rewind h' = ?h"
    using get_bytes_pending [OF ok n] rewind_rewind [of host] by auto
  have bytes: "take ?n (pending ?h) = image_bytes (fw host)"
    by (simp add: rewind_pending length_image_bytes)
  have "pending h' = []"
    using h'(2) by (simp add: rewind_pending length_image_bytes)
  then have null: "cur_rec h' = []"
    using h'(3) pending_Nil by blast
  then have stop: "issp_fw_get_byte h' = None"
    by (simp add: issp_fw_get_byte_def)
  have pre: "map_option fst (get_bytes m ?h) = Some (take m (image_bytes (fw host)))"
    if "m \<le> ?n" for m
  proof -
    have "m \<le> length (pending ?h)" using that n by simp
    then obtain hm where "get_bytes m ?h = Some (take m (pending ?h), hm)"
      using get_bytes_pending [OF ok] by blast
    then show ?thesis by (simp add: rewind_pending)
  qed
  have "\<exists>host'. get_bytes ?n ?h = Some (image_bytes (fw host), host')
          \<and> cur_rec host' = [] \<and> issp_fw_get_byte host' = None
          \<and> get_bytes ?n (issp_fw_rewind host') = Some (image_bytes (fw host), host')"
    using h'(1,4) bytes null stop by simp
  then show ?thesis
    using pre by blast
qed

theorem issp_fw_stream_witness:
  "map_option fst (get_bytes 5 (issp_fw_rewind (new_host ex_pdata ex_small_image)))
     = Some [1, 2, 3, 4, 5]
   \<and> map_option fst (get_bytes 3 (issp_fw_rewind (new_host ex_pdata ex_small_image)))
     = Some [1, 2, 3]"
proof -
  let ?h = "new_host ex_pdata ex_small_image"
  have ne: "fw ?h \<noteq> []"
    by (simp add: new_host_def ex_small_image_def)
  have wf: "\<forall>r\<in>set (fw ?h). len r \<noteq> 0"
    by (simp add: new_host_def ex_small_image_def)
  have n: "image_size (fw ?h) = 5"
    by (simp add: image_size_def new_host_def ex_small_image_def)
  have b: "image_bytes (fw ?h) = [1, 2, 3, 4, 5]"
    by (simp add: image_bytes_def rec_bytes_def new_host_def ex_small_image_def bytes_def
        upt_conv_Cons)
  note t = issp_fw_stream [OF ne wf, unfolded n b]
  obtain h' where h': "get_bytes 5 (issp_fw_rewind ?h) = Some ([1, 2, 3, 4, 5], h')"
    using t by auto
  from t have "\<forall>m\<le>5. map_option fst (get_bytes m (issp_fw_rewind ?h))
      = Some (take m [1, 2, 3, 4, 5])"
    by (rule conjunct2)
  then have "3 \<le> (5 :: nat) \<longrightarrow> map_option fst (get_bytes 3 (issp_fw_rewind ?h))
      = Some (take 3 [1, 2, 3, 4, 5])"
    by (rule spec)
  then have "map_option fst (get_bytes 3 (issp_fw_rewind ?h)) = Some [1, 2, 3]"
    by simp
  with h' show ?thesis by simp
qed

section \<open>Update decision\<close>

text \<open>
  C2. For every successful one-byte read of the on-device version (return code 1), the
  update decision is true exactly when device_version < embedded_version, or when
  device_version differs from embedded_version and the force-update flag is set, and
  false otherwise; when the read fails because the block is access-protected (return code
  -EACCES), the decision is true whatever the versions are. The decision function reports
  success (0) in both cases.
\<close>

theorem issp_need_update_decision:
  "(read_block (version_idx (pdata host)) (version_off (pdata host)) = (1, ver_uc) \<longrightarrow>
      issp_need_update read_block host update =
        (0, ver_uc < version_fw host
            \<or> (ver_uc \<noteq> version_fw host \<and> force_update (pdata host))))
   \<and> (fst (read_block (version_idx (pdata host)) (version_off (pdata host))) = - EACCES \<longrightarrow>
      issp_need_update read_block host update = (0, True))"
  by (auto simp: issp_need_update_def Let_def EACCES_def split: prod.splits)

text \<open>The truth table of the specification, and a protected block.\<close>

theorem issp_need_update_decision_witness:
  "issp_need_update (\<lambda>idx off. (1, 0x10))
      ((new_host ex_pdata ex_good_image)\<lparr>version_fw := 0x12\<rparr>) False = (0, True)
   \<and> issp_need_update (\<lambda>idx off. (1, 0x12))
      ((new_host ex_pdata ex_good_image)\<lparr>version_fw := 0x12\<rparr>) True = (0, False)
   \<and> issp_need_update (\<lambda>idx off. (1, 0x10))
      ((new_host (ex_pdata\<lparr>force_update := True\<rparr>) ex_good_image)\<lparr>version_fw := 0x08\<rparr>) False
        = (0, True)
   \<and> issp_need_update (\<lambda>idx off. (1, 0x08))
      ((new_host (ex_pdata\<lparr>force_update := True\<rparr>) ex_good_image)\<lparr>version_fw := 0x08\<rparr>) True
        = (0, False)
   \<and> issp_need_update (\<lambda>idx off. (- EACCES, 0))
      ((new_host ex_pdata ex_good_image)\<lparr>version_fw := 0x12\<rparr>) False = (0, True)"
  using
    issp_need_update_decision [of "\<lambda>idx off. (1, 0x10)"
      "(new_host ex_pdata ex_good_image)\<lparr>version_fw := 0x12\<rparr>" "0x10" False]
    issp_need_update_decision [of "\<lambda>idx off. (1, 0x12)"
      "(new_host ex_pdata ex_good_image)\<lparr>version_fw := 0x12\<rparr>" "0x12" True]
    issp_need_update_decision [of "\<lambda>idx off. (1, 0x10)"
      "(new_host (ex_pdata\<lparr>force_update := True\<rparr>) ex_good_image)\<lparr>version_fw := 0x08\<rparr>"
      "0x10" False]
    issp_need_update_decision [of "\<lambda>idx off. (1, 0x08)"
      "(new_host (ex_pdata\<lparr>force_update := True\<rparr>) ex_good_image)\<lparr>version_fw := 0x08\<rparr>"
      "0x08" True]
    issp_need_update_decision [of "\<lambda>idx off. (- EACCES, 0)"
      "(new_host ex_pdata ex_good_image)\<lparr>version_fw := 0x12\<rparr>" 0 False]
  by (simp add: new_host_def ex_pdata_def)

lemma need_update_error:
  assumes "read_block (version_idx (pdata host)) (version_off (pdata host)) = (ret, b)"
    and "ret \<noteq> 1" and "ret \<noteq> - EACCES"
  shows "issp_need_update read_block host update = (ret, update)"
  using assms by (simp add: issp_need_update_def Let_def)

lemma setup_no_program: "(\<forall>r. Program r \<notin> set t) \<Longrightarrow> Program r \<notin> set (snd (probe_setup e t))"
  by (auto simp: probe_setup_def Let_def exit_err_def exit_err_id_def exit_err_work_def)

lemma attach_no_program:
  assumes rd: "issp_read_block e (version_idx (pdata host)) (version_off (pdata host)) = (ret, b)"
    and "ret \<noteq> 1" and "ret \<noteq> - EACCES" and "ret \<noteq> 0"
    and t: "\<forall>r. Program r \<notin> set t"
  shows "Program r \<notin> set (snd (probe_attach K e pd host t))"
proof -
  obtain cr h1 where ck: "issp_check_fw K host = (cr, h1)"
    by (cases "issp_check_fw K host")
  have pd1: "pdata h1 = pdata host"
    using check_fw_pdata [of K host] ck by simp
  let ?h2 = "h1\<lparr>si_id := uc_si_id e\<rparr>"
  have "issp_read_block e (version_idx (pdata ?h2)) (version_off (pdata ?h2)) = (ret, b)"
    using rd pd1 by simp
  then have nu: "issp_need_update (issp_read_block e) ?h2 (update_uninit e) = (ret, update_uninit e)"
    using assms(2,3) by (rule need_update_error)
  show ?thesis
    using ck nu assms(4) t
    by (simp add: probe_attach_def Let_def exit_err_def exit_err_id_def)
qed

section \<open>Attach sequence\<close>

lemma probe_loaded:
  "loaded e pd img \<Longrightarrow> issp_probe K e = probe_attach K e pd (new_host pd img) setup_events"
  by (simp add: loaded_def issp_probe_def probe_gpio_requests_def Let_def setup_events_def)

lemma exit_err_id_run:
  "fst (exit_err_id t) = 0
   \<and> (\<exists>pre. snd (exit_err_id t)
         = pre @ [Uc_run, Gpio_direction_input Data_gpio, Gpio_direction_input Clk_gpio,
                  Release_firmware])"
  by (simp add: exit_err_id_def)

lemma attach_invalid:
  "fst (issp_check_fw K host) \<noteq> 0 \<Longrightarrow> probe_attach K e pd host t = exit_err t"
  by (cases "issp_check_fw K host") (simp add: probe_attach_def)

lemma attach_mismatch:
  "fst (issp_check_fw K host) = 0 \<Longrightarrow> si_id_differs (uc_si_id e) (pdata_si_id pd) \<Longrightarrow>
   probe_attach K e pd host t = exit_err_id (t @ [Uc_program])"
  by (cases "issp_check_fw K host") (simp add: probe_attach_def Let_def)

lemma attach_decision:
  assumes "fst (issp_check_fw K host) = 0"
    and "\<not> si_id_differs (uc_si_id e) (pdata_si_id pd)"
    and "issp_need_update (issp_read_block e)
           ((snd (issp_check_fw K host))\<lparr>si_id := uc_si_id e\<rparr>) (update_uninit e) = (nr, up)"
  shows "probe_attach K e pd host t =
           (if nr \<noteq> 0 then exit_err_id (t @ [Uc_program])
            else probe_setup e (if up then t @ [Uc_program] @ [Program (issp_program e)]
                                else t @ [Uc_program]))"
  using assms by (cases "issp_check_fw K host") (simp add: probe_attach_def Let_def)

lemma setup_allocated:
  "kzalloc_wake_lock_ok e \<Longrightarrow> create_workqueue_ok e \<Longrightarrow>
   probe_setup e t =
     exit_err_id (t @ [Mutex_init, Create_file Attr_issp_reset, Create_file Attr_issp_usbreset,
                       Create_file Attr_issp_data, Create_file Attr_issp_clk, Kzalloc_wake_lock,
                       Wake_lock_init, Create_workqueue, Init_delayed_work])"
  by (simp add: probe_setup_def Let_def)

lemma ex_good_valid:
  "issp_check_fw ex_priv (new_host ex_pdata ex_good_image)
     = (0, (new_host ex_pdata ex_good_image)
             \<lparr>security_rec := drop 2 ex_good_image, checksum_fw := 0x1234, version_fw := 5\<rparr>)"
  by (simp add: issp_check_fw_def issp_check_rec_def Let_def new_host_def ex_priv_def
      ex_pdata_def ex_good_image_def bytes_def)

lemma ex_invalid_invalid:
  "fst (issp_check_fw ex_priv (new_host ex_pdata ex_invalid_image)) = - EINVAL"
  by (simp add: issp_check_fw_def issp_check_rec_def Let_def new_host_def ex_priv_def
      ex_pdata_def ex_invalid_image_def)

text \<open>
  C5. For every outcome of the device read (the one byte asked for, or an error) that is
  neither the successful one-byte read nor the access-protected failure, the update
  decision function returns that outcome, a non-zero code, and leaves the update decision
  unwritten, and the attach sequence does not program: where it has reached the decision
  (image valid, identity matching) it goes on with the run step, the release of the lines
  and the release of the image.
\<close>

theorem issp_need_update_read_failure:
  assumes rd: "issp_read_block e (version_idx pd) (version_off pd) = (ret, b)"
    and out: "read_outcome ret"
    and n1: "ret \<noteq> 1" and na: "ret \<noteq> - EACCES"
  shows "(\<forall>host update. pdata host = pd \<longrightarrow>
            issp_need_update (issp_read_block e) host update = (ret, update))
       \<and> ret \<noteq> 0
       \<and> (platform_data e = Some pd \<longrightarrow> (\<forall>r. Program r \<notin> set (snd (issp_probe K e))))
       \<and> (loaded e pd img \<and> fst (issp_check_fw K (new_host pd img)) = 0
            \<and> \<not> si_id_differs (uc_si_id e) (pdata_si_id pd) \<longrightarrow>
          snd (issp_probe K e)
            = setup_events @ [Uc_program, Uc_run, Gpio_direction_input Data_gpio,
                              Gpio_direction_input Clk_gpio, Release_firmware])"
proof -
  have nz: "ret \<noteq> 0"
    using out n1 by (auto simp: read_outcome_def)
  have a: "issp_need_update (issp_read_block e) host update = (ret, update)"
    if "pdata host = pd" for host update
    using rd n1 na that by (intro need_update_error) simp_all
  have b: "Program r \<notin> set (snd (issp_probe K e))"
    if pd: "platform_data e = Some pd" for r
  proof -
    have "Program r \<notin> set (snd (probe_attach K e pd (new_host pd im) t))"
      if "\<forall>r. Program r \<notin> set t" for im t
      using rd n1 na nz that by (intro attach_no_program) (simp_all add: new_host_def)
    then show ?thesis
      using pd
      by (simp add: issp_probe_def probe_gpio_requests_def Let_def split: prod.splits)
  qed
  have c: "snd (issp_probe K e)
            = setup_events @ [Uc_program, Uc_run, Gpio_direction_input Data_gpio,
                              Gpio_direction_input Clk_gpio, Release_firmware]"
    if ld: "loaded e pd img" and v: "fst (issp_check_fw K (new_host pd img)) = 0"
      and m: "\<not> si_id_differs (uc_si_id e) (pdata_si_id pd)"
  proof -
    have "pdata ((snd (issp_check_fw K (new_host pd img)))\<lparr>si_id := uc_si_id e\<rparr>) = pd"
      by (simp add: check_fw_pdata) (simp add: new_host_def)
    then have d: "issp_need_update (issp_read_block e)
          ((snd (issp_check_fw K (new_host pd img)))\<lparr>si_id := uc_si_id e\<rparr>)
          (update_uninit e) = (ret, update_uninit e)"
      by (rule a)
    show ?thesis
      unfolding probe_loaded [OF ld] attach_decision [OF v m d]
      using nz by (simp add: exit_err_id_def)
  qed
  show ?thesis using a nz b c by blast
qed

theorem issp_need_update_read_failure_witness:
  "issp_need_update (\<lambda>idx off. (- 5, 0)) (new_host ex_pdata ex_good_image) True = (- 5, True)
   \<and> issp_need_update (\<lambda>idx off. (- 5, 0)) (new_host ex_pdata ex_good_image) False = (- 5, False)
   \<and> Program 0 \<notin> set (snd (issp_probe ex_priv (ex_env\<lparr>issp_read_block := (\<lambda>idx off. (- 5, 0))\<rparr>)))
   \<and> snd (issp_probe ex_priv (ex_env\<lparr>issp_read_block := (\<lambda>idx off. (- 5, 0))\<rparr>))
       = setup_events @ [Uc_program, Uc_run, Gpio_direction_input Data_gpio,
                         Gpio_direction_input Clk_gpio, Release_firmware]"
proof -
  let ?e = "ex_env\<lparr>issp_read_block := (\<lambda>idx off. (- 5, 0))\<rparr>"
  have rd: "issp_read_block ?e (version_idx ex_pdata) (version_off ex_pdata) = (- 5, 0)"
    by simp
  have out: "read_outcome (- 5)"
    by (simp add: read_outcome_def)
  have n1: "(- 5 :: int) \<noteq> 1" and na: "(- 5 :: int) \<noteq> - EACCES"
    by (simp_all add: EACCES_def)
  have pd: "platform_data ?e = Some ex_pdata"
    by (simp add: ex_env_def)
  have ld: "loaded ?e ex_pdata ex_good_image"
    by (simp add: loaded_def ex_env_def ex_good_image_def ex_invalid_image_def)
  have v: "fst (issp_check_fw ex_priv (new_host ex_pdata ex_good_image)) = 0"
    by (simp add: ex_good_valid)
  have m: "\<not> si_id_differs (uc_si_id ?e) (pdata_si_id ex_pdata)"
    by (simp add: si_id_differs_def ex_env_def ex_pdata_def)
  have h: "pdata (new_host ex_pdata ex_good_image) = ex_pdata"
    by (simp add: new_host_def)
  show ?thesis
    using issp_need_update_read_failure [OF rd out n1 na, of ex_priv ex_good_image] pd ld v m h
    by (simp add: setup_events_def)
qed

text \<open>
  C3, as amended. Once the image is loaded: on the invalid-image path no run step is
  performed (the controller has not been put into programming mode); the data and clock
  lines are returned to input and then the firmware image is released. On the identity
  mismatch path, on the update-decision error path, and on the paths through the update
  decision on which the guard and the work queue are then allocated (programming success,
  programming failure, no programming), the attach sequence ends with the controller's run
  step, the data line and the clock line returned to input, and then the release of the
  firmware image.
\<close>

theorem issp_probe_cleanup:
  assumes ld: "loaded e pd img"
  shows "(fst (issp_check_fw K (new_host pd img)) \<noteq> 0 \<longrightarrow>
            issp_probe K e
              = (- ENOMEM, setup_events @ [Gpio_direction_input Data_gpio,
                   Gpio_direction_input Clk_gpio, Release_firmware, Kfree_host]))
       \<and> (fst (issp_check_fw K (new_host pd img)) = 0
          \<and> (si_id_differs (uc_si_id e) (pdata_si_id pd)
             \<or> fst (issp_need_update (issp_read_block e)
                      ((snd (issp_check_fw K (new_host pd img)))\<lparr>si_id := uc_si_id e\<rparr>)
                      (update_uninit e)) \<noteq> 0
             \<or> (kzalloc_wake_lock_ok e \<and> create_workqueue_ok e)) \<longrightarrow>
            fst (issp_probe K e) = 0
            \<and> (\<exists>pre. snd (issp_probe K e)
                  = pre @ [Uc_run, Gpio_direction_input Data_gpio,
                           Gpio_direction_input Clk_gpio, Release_firmware]))"
proof -
  let ?h = "new_host pd img"
  let ?d = "issp_need_update (issp_read_block e)
              ((snd (issp_check_fw K ?h))\<lparr>si_id := uc_si_id e\<rparr>) (update_uninit e)"
  have bad: "issp_probe K e
      = (- ENOMEM, setup_events @ [Gpio_direction_input Data_gpio,
           Gpio_direction_input Clk_gpio, Release_firmware, Kfree_host])"
    if "fst (issp_check_fw K ?h) \<noteq> 0"
    unfolding probe_loaded [OF ld] attach_invalid [OF that] by (simp add: exit_err_def)
  have good: "\<exists>t'. issp_probe K e = exit_err_id t'"
    if v: "fst (issp_check_fw K ?h) = 0"
      and c: "si_id_differs (uc_si_id e) (pdata_si_id pd) \<or> fst ?d \<noteq> 0
        \<or> (kzalloc_wake_lock_ok e \<and> create_workqueue_ok e)"
  proof (cases "si_id_differs (uc_si_id e) (pdata_si_id pd)")
    case True
    show ?thesis
      unfolding probe_loaded [OF ld] attach_mismatch [OF v True] by blast
  next
    case False
    obtain nr up where d: "?d = (nr, up)"
      by (cases ?d)
    show ?thesis
    proof (cases "nr = 0")
      case True
      with c False d have "kzalloc_wake_lock_ok e" "create_workqueue_ok e" by simp_all
      then show ?thesis
        unfolding probe_loaded [OF ld] attach_decision [OF v False d]
        using True by (auto simp: setup_allocated)
    next
      case False
      then show ?thesis
        unfolding probe_loaded [OF ld] attach_decision [OF v \<open>\<not> si_id_differs (uc_si_id e) (pdata_si_id pd)\<close> d]
        by auto
    qed
  qed
  have fin: "fst (issp_probe K e) = 0
            \<and> (\<exists>pre. snd (issp_probe K e)
                  = pre @ [Uc_run, Gpio_direction_input Data_gpio,
                           Gpio_direction_input Clk_gpio, Release_firmware])"
    if v: "fst (issp_check_fw K ?h) = 0"
      and c: "si_id_differs (uc_si_id e) (pdata_si_id pd) \<or> fst ?d \<noteq> 0
        \<or> (kzalloc_wake_lock_ok e \<and> create_workqueue_ok e)"
  proof -
    obtain t' where "issp_probe K e = exit_err_id t'"
      using good [OF v c] by blast
    then show ?thesis
      using exit_err_id_run [of t'] by simp
  qed
  show ?thesis
    using bad fin by blast
qed

theorem issp_probe_cleanup_witness:
  "issp_probe ex_priv (ex_env\<lparr>request_ihex_firmware := (0, ex_invalid_image)\<rparr>)
     = (- ENOMEM, setup_events @ [Gpio_direction_input Data_gpio,
          Gpio_direction_input Clk_gpio, Release_firmware, Kfree_host])
   \<and> issp_probe ex_priv ex_env
     = (0, setup_events @ [Uc_program, Program 0, Mutex_init, Create_file Attr_issp_reset,
          Create_file Attr_issp_usbreset, Create_file Attr_issp_data,
          Create_file Attr_issp_clk, Kzalloc_wake_lock, Wake_lock_init, Create_workqueue,
          Init_delayed_work, Uc_run, Gpio_direction_input Data_gpio,
          Gpio_direction_input Clk_gpio, Release_firmware])"
proof -
  let ?bad = "ex_env\<lparr>request_ihex_firmware := (0, ex_invalid_image)\<rparr>"
  have l1: "loaded ?bad ex_pdata ex_invalid_image"
    by (simp add: loaded_def ex_env_def ex_good_image_def ex_invalid_image_def)
  have l2: "loaded ex_env ex_pdata ex_good_image"
    by (simp add: loaded_def ex_env_def ex_good_image_def ex_invalid_image_def)
  have ok: "kzalloc_wake_lock_ok ex_env \<and> create_workqueue_ok ex_env"
    by (simp add: ex_env_def)
  have run: "issp_probe ex_priv ex_env
     = (0, setup_events @ [Uc_program, Program 0, Mutex_init, Create_file Attr_issp_reset,
          Create_file Attr_issp_usbreset, Create_file Attr_issp_data,
          Create_file Attr_issp_clk, Kzalloc_wake_lock, Wake_lock_init, Create_workqueue,
          Init_delayed_work, Uc_run, Gpio_direction_input Data_gpio,
          Gpio_direction_input Clk_gpio, Release_firmware])"
  proof -
    have v: "fst (issp_check_fw ex_priv (new_host ex_pdata ex_good_image)) = 0"
      by (simp add: ex_good_valid)
    have m: "\<not> si_id_differs (uc_si_id ex_env) (pdata_si_id ex_pdata)"
      by (simp add: si_id_differs_def ex_env_def ex_pdata_def)
    have d: "issp_need_update (issp_read_block ex_env)
          ((snd (issp_check_fw ex_priv (new_host ex_pdata ex_good_image)))\<lparr>si_id := uc_si_id ex_env\<rparr>)
          (update_uninit ex_env) = (0, True)"
      by (simp add: issp_need_update_def Let_def EACCES_def ex_env_def ex_good_valid)
    have p: "issp_program ex_env = 0"
      by (simp add: ex_env_def)
    show ?thesis
      unfolding probe_loaded [OF l2] attach_decision [OF v m d]
      using ok p by (simp add: setup_allocated exit_err_id_def)
  qed
  show ?thesis
    using issp_probe_cleanup [OF l1, of ex_priv] issp_probe_cleanup [OF l2, of ex_priv]
      ex_invalid_invalid ok run
    by (simp add: EINVAL_def)
qed

text \<open>
  As the specification states it, C3 fails on the invalid-image path: the attach sequence
  releases the firmware image without a run step.
\<close>

theorem issp_probe_invalid_image_counterexample:
  "fst (issp_check_fw ex_priv (new_host ex_pdata ex_invalid_image)) \<noteq> 0
   \<and> Release_firmware \<in> set (snd (issp_probe ex_priv
         (ex_env\<lparr>request_ihex_firmware := (0, ex_invalid_image)\<rparr>)))
   \<and> Uc_run \<notin> set (snd (issp_probe ex_priv
         (ex_env\<lparr>request_ihex_firmware := (0, ex_invalid_image)\<rparr>)))"
proof -
  have l1: "loaded (ex_env\<lparr>request_ihex_firmware := (0, ex_invalid_image)\<rparr>) ex_pdata
      ex_invalid_image"
    by (simp add: loaded_def ex_env_def ex_good_image_def ex_invalid_image_def)
  have nv: "fst (issp_check_fw ex_priv (new_host ex_pdata ex_invalid_image)) \<noteq> 0"
    by (simp add: ex_invalid_invalid EINVAL_def)
  show ?thesis
    unfolding probe_loaded [OF l1] attach_invalid [OF nv]
    using nv by (simp add: exit_err_def setup_events_def)
qed

text \<open>
  C6. A mismatch of any of the four silicon identity bytes is to make the attach sequence
  fail, after the controller is running again and the lines are released. In the code the
  label \<open>err_id\<close> lies on the path of the successful attach: after the run step and the
  release of the lines, \<open>issp_probe\<close> returns 0, the code of success.
\<close>

theorem issp_probe_id_mismatch:
  assumes ld: "loaded e pd img"
    and valid: "fst (issp_check_fw K (new_host pd img)) = 0"
    and differs: "si_id_differs (uc_si_id e) (pdata_si_id pd)"
  shows "issp_probe K e
           = (0, setup_events @ [Uc_program, Uc_run, Gpio_direction_input Data_gpio,
                                 Gpio_direction_input Clk_gpio, Release_firmware])"
  unfolding probe_loaded [OF ld] attach_mismatch [OF valid differs]
  by (simp add: exit_err_id_def)

theorem issp_probe_id_mismatch_witness:
  "issp_probe ex_priv (ex_env\<lparr>uc_si_id := (0, 0, 0, 1)\<rparr>)
     = (0, setup_events @ [Uc_program, Uc_run, Gpio_direction_input Data_gpio,
                           Gpio_direction_input Clk_gpio, Release_firmware])"
proof -
  let ?e = "ex_env\<lparr>uc_si_id := (0, 0, 0, 1)\<rparr>"
  have ld: "loaded ?e ex_pdata ex_good_image"
    by (simp add: loaded_def ex_env_def ex_good_image_def ex_invalid_image_def)
  have valid: "fst (issp_check_fw ex_priv (new_host ex_pdata ex_good_image)) = 0"
    by (simp add: ex_good_valid)
  have differs: "si_id_differs (uc_si_id ?e) (pdata_si_id ex_pdata)"
    by (simp add: si_id_differs_def ex_pdata_def)
  show ?thesis
    using issp_probe_id_mismatch [OF ld valid differs] by simp
qed

section \<open>Recovery coordinator\<close>

lemma recovery_attempts_0:
  "issp_recovery_attempts 0 =
     [Mutex_lock, Usb_unload, Uc_reset, Usb_reload, Mutex_unlock, Msleep 500]"
  by (subst issp_recovery_attempts.simps, subst issp_recovery_attempts.simps) simp

text \<open>
  C8, as amended. When the delayed recovery task fires and the suspend-inhibiting guard
  does not exist (the pointer \<open>g_issp_wake_lock\<close> is \<open>NULL\<close>), the recovery sequence is
  skipped entirely: no unload or reload of the dependent subsystem, no controller reset,
  no guard release. When the guard exists, held or not, the task runs the sequence once
  and releases the guard.
\<close>

theorem issp_recovery_work_null_guard:
  "issp_recovery_work_func None = []
   \<and> issp_recovery_work_func (Some w)
       = [Mutex_lock, Usb_unload, Uc_reset, Usb_reload, Mutex_unlock, Msleep 500, Wake_unlock]"
  by (simp add: issp_recovery_work_func_def recovery_attempts_0)

text \<open>
  As the specification states it, C8 fails: with a guard that exists and is not held, the
  task unloads, resets, reloads and releases the guard.
\<close>

theorem issp_recovery_guard_not_held_counterexample:
  "issp_recovery_work_func (Some \<lparr>held = False\<rparr>)
     = [Mutex_lock, Usb_unload, Uc_reset, Usb_reload, Mutex_unlock, Msleep 500, Wake_unlock]"
  by (simp add: issp_recovery_work_func_def recovery_attempts_0)

text \<open>
  C9, as amended. The manual pin-reset operation performs exactly this sequence: acquire
  the suspend-inhibiting guard, acquire the exclusive lock, toggle the controller reset,
  release the lock, release the guard; it returns the number of bytes written.
\<close>

theorem issp_reset_set_sequence:
  "issp_reset_set count
     = (count, [Wake_lock] @ [Mutex_lock, Uc_reset, Mutex_unlock] @ [Wake_unlock])"
  by (simp add: issp_reset_set_def)

text \<open>
  As the specification states it, C9 fails: the operation is not the three-step sequence,
  it acquires and releases the guard.
\<close>

theorem issp_reset_set_guard_counterexample:
  "snd (issp_reset_set 1) \<noteq> [Mutex_lock, Uc_reset, Mutex_unlock]
   \<and> Wake_lock \<in> set (snd (issp_reset_set 1))
   \<and> Wake_unlock \<in> set (snd (issp_reset_set 1))"
  by (simp add: issp_reset_set_def)

section \<open>Serialisation of the reset paths\<close>






end
